theory Spec2Isabelle
  imports Complex_Main "HOL-Library.Char_ord"
begin

section \<open>JavaScript values read by the groups controller\<close>

text \<open>
  A query-string parameter as the query parser hands it to the controller: absent, a
  string, an array or an object. Strings are byte strings.
\<close>

datatype qval =
    QUndefined
  | QString string
  | QArray "qval list"
  | QObject "(string \<times> qval) list"

text \<open>JavaScript truthiness, as used by \<open>req.query.query ? ... : ...\<close> and \<open>x || y\<close>.\<close>

fun truthy :: "qval \<Rightarrow> bool" where
  "truthy QUndefined = False"
| "truthy (QString s) = (s \<noteq> [])"
| "truthy (QArray xs) = True"
| "truthy (QObject kvs) = True"

fun join :: "string list \<Rightarrow> string" where
  "join [] = []"
| "join [x] = x"
| "join (x # y # ys) = x @ '','' @ join (y # ys)"

text \<open>\<open>String(v)\<close>: an array joins its elements with commas, an absent element being empty.\<close>

fun toString :: "qval \<Rightarrow> string" where
  "toString QUndefined = ''undefined''"
| "toString (QString s) = s"
| "toString (QArray xs) = join (map (\<lambda>x. if x = QUndefined then [] else toString x) xs)"
| "toString (QObject kvs) = ''[object Object]''"

definition isWhiteSpace :: "char \<Rightarrow> bool" where
  "isWhiteSpace c \<longleftrightarrow> (of_char c :: nat) \<in> {9, 10, 11, 12, 13, 32}"

definition isDigit :: "char \<Rightarrow> bool" where
  "isDigit c \<longleftrightarrow> 48 \<le> (of_char c :: nat) \<and> (of_char c :: nat) \<le> 57"

definition digitVal :: "char \<Rightarrow> int" where
  "digitVal c = int (of_char c) - 48"

text \<open>
  Numbers are IEEE doubles. Those the controller computes with are whole, so a number is
  an \<open>int\<close> here and every arithmetic result is rounded to the nearest double, ties
  to the even significand. Doubles of magnitude at least \<open>2^53\<close> are the multiples of
  \<open>ulp\<close>, a power of two. Overflow is left out: a magnitude beyond the largest double,
  which the source turns into \<open>Infinity\<close>, stays finite here.
\<close>

function ulp :: "int \<Rightarrow> int" where
  "ulp n = (if n < 2 ^ 53 then 1 else 2 * ulp (n div 2))"
  by pat_completeness auto
termination
  by (relation "measure nat") auto

declare ulp.simps [simp del]

definition float64 :: "int \<Rightarrow> int" where
  "float64 x =
     (let u = ulp \<bar>x\<bar>; q = x div u; r = x mod u
      in if 2 * r < u then q * u
         else if u < 2 * r then (q + 1) * u
         else if even q then q * u else (q + 1) * u)"

text \<open>
  \<open>parseInt(s, 10)\<close>: leading white space is skipped (the ASCII white space, on byte
  strings), one sign is read, then the longest run of decimal digits; no digit gives NaN,
  which is \<open>None\<close> here. The value is the double nearest to the digits read.
\<close>

definition parseInt :: "string \<Rightarrow> int option" where
  "parseInt s =
     (let t = dropWhile isWhiteSpace s;
          neg = (case t of [] \<Rightarrow> False | c # r \<Rightarrow> c = CHR ''-'');
          u = (case t of [] \<Rightarrow> t | c # r \<Rightarrow> if c = CHR ''+'' \<or> c = CHR ''-'' then r else t);
          ds = takeWhile isDigit u
      in if ds = [] then None
         else Some (float64
                ((if neg then - 1 else 1) * foldl (\<lambda>a c. 10 * a + digitVal c) 0 ds)))"

text \<open>\<open>parseInt(req.query.page, 10) || 1\<close>: NaN and 0 are falsy.\<close>

definition parsePage :: "qval \<Rightarrow> int" where
  "parsePage q =
     (case parseInt (toString q) of
        None \<Rightarrow> 1
      | Some n \<Rightarrow> if n = 0 then 1 else n)"

text \<open>
  \<open>Math.ceil(a / b)\<close>, for a whole count \<open>a\<close> and a page size \<open>b\<close> of 15, 50 or 100,
  as the ceiling of the exact quotient: for counts up to \<open>2^53\<close> the rounding of the
  quotient to a double is too small to move it across a whole number.
\<close>

definition Math_ceil_div :: "int \<Rightarrow> int \<Rightarrow> int" where
  "Math_ceil_div a b = \<lceil>real_of_int a / real_of_int b\<rceil>"

text \<open>
  A JavaScript array: its length is below \<open>2^32\<close>. The answer of \<open>groups.search\<close> is
  kept as one, since the controller reads its length and cuts a window out of it; the
  other sequences only pass through the controller and are plain lists.
\<close>

typedef 'a js_array = "{xs :: 'a list. length xs < 2 ^ 32}"
  morphisms elements JSArray
  by (rule exI [of _ "[]"]) simp

text \<open>\<open>Array.prototype.slice(start, end)\<close>, negative indices counting from the end.\<close>

definition slice :: "'a list \<Rightarrow> int \<Rightarrow> int \<Rightarrow> 'a list" where
  "slice xs start end =
     (let len = int (length xs);
          k = (if start < 0 then max (len + start) 0 else min start len);
          final = (if end < 0 then max (len + end) 0 else min end len)
      in take (nat (final - k)) (drop (nat k) xs))"

definition lowerChar :: "char \<Rightarrow> char" where
  "lowerChar c =
     (if 65 \<le> (of_char c :: nat) \<and> (of_char c :: nat) \<le> 90
      then char_of ((of_char c :: nat) + 32) else c)"

text \<open>\<open>String.prototype.toLowerCase\<close> on byte strings: the ASCII capitals are lowered.\<close>

definition toLowerCase :: "string \<Rightarrow> string" where
  "toLowerCase s = map lowerChar s"

section \<open>Collaborators, calls and promises\<close>

datatype error = CollaboratorFailure string

type_synonym 'a result = "error + 'a"

record group =
  displayName :: string
  memberCount :: int

text \<open>The filter object built for \<open>groups.search\<close>.\<close>

record search_options =
  so_sort :: qval
  filterHidden :: bool
  showMembers :: bool
  hideEphemeralGroups :: bool
  excludeGroups :: "qval list"

text \<open>The options object built for \<open>groups.get\<close>.\<close>

record get_options =
  go_uid :: int
  truncateUserList :: bool
  userListCount :: int

text \<open>
  The modules the controller requires (\<open>groups\<close>, \<open>user\<close>, \<open>privileges\<close>): every
  function answers with a value or fails. \<open>'u\<close> is a user record, \<open>'p\<close> a post.
  \<open>groups.get\<close> may answer with no record, \<open>groups.getGroupNameByGroupSlug\<close> with no
  name. \<open>validator.escape\<close> is a pure string function of a library.
\<close>

record ('u, 'p) collaborators =
  privileges_global_can :: "string \<Rightarrow> int \<Rightarrow> bool result"
  privileges_admin_can :: "string \<Rightarrow> int \<Rightarrow> bool result"
  user_isAdministrator :: "int \<Rightarrow> bool result"
  user_isGlobalModerator :: "int \<Rightarrow> bool result"
  user_isAdminOrGlobalMod :: "int \<Rightarrow> bool result"
  user_getUsersFromSet :: "string \<Rightarrow> int \<Rightarrow> int \<Rightarrow> int \<Rightarrow> 'u list result"
  groups_search :: "qval \<Rightarrow> search_options \<Rightarrow> group js_array result"
  groups_getGroupsBySort :: "qval \<Rightarrow> int \<Rightarrow> int \<Rightarrow> group list result"
  groups_getGroupCountBySort :: "qval \<Rightarrow> int result"
  groups_getGroupNameByGroupSlug :: "string \<Rightarrow> string option result"
  groups_exists :: "string \<Rightarrow> bool result"
  groups_isHidden :: "string \<Rightarrow> bool result"
  groups_isMember :: "int \<Rightarrow> string \<Rightarrow> bool result"
  groups_isInvited :: "int \<Rightarrow> string \<Rightarrow> bool result"
  groups_get :: "string \<Rightarrow> get_options \<Rightarrow> group option result"
  groups_getLatestMemberPosts :: "string \<Rightarrow> int \<Rightarrow> int \<Rightarrow> 'p list result"
  groups_getGroupData :: "string \<Rightarrow> group result"
  validator_escape :: "string \<Rightarrow> string"

text \<open>
  One constructor for each collaborator function that may fail, with the arguments of the
  call.
\<close>

datatype call =
    PrivilegesGlobalCan string int
  | PrivilegesAdminCan string int
  | UserIsAdministrator int
  | UserIsGlobalModerator int
  | UserIsAdminOrGlobalMod int
  | UserGetUsersFromSet string int int int
  | GroupsSearch qval search_options
  | GroupsGetGroupsBySort qval int int
  | GroupsGetGroupCountBySort qval
  | GroupsGetGroupNameByGroupSlug string
  | GroupsExists string
  | GroupsIsHidden string
  | GroupsIsMember int string
  | GroupsIsInvited int string
  | GroupsGet string get_options
  | GroupsGetLatestMemberPosts string int int
  | GroupsGetGroupData string

fun failure_of :: "'a result \<Rightarrow> error option" where
  "failure_of (Inl e) = Some e"
| "failure_of (Inr x) = None"

text \<open>The failure, if any, with which the collaborators answer a call.\<close>

fun call_failure :: "('u, 'p) collaborators \<Rightarrow> call \<Rightarrow> error option" where
  "call_failure env (PrivilegesGlobalCan p u) = failure_of (privileges_global_can env p u)"
| "call_failure env (PrivilegesAdminCan p u) = failure_of (privileges_admin_can env p u)"
| "call_failure env (UserIsAdministrator u) = failure_of (user_isAdministrator env u)"
| "call_failure env (UserIsGlobalModerator u) = failure_of (user_isGlobalModerator env u)"
| "call_failure env (UserIsAdminOrGlobalMod u) = failure_of (user_isAdminOrGlobalMod env u)"
| "call_failure env (UserGetUsersFromSet k u a b) = failure_of (user_getUsersFromSet env k u a b)"
| "call_failure env (GroupsSearch q opts) = failure_of (groups_search env q opts)"
| "call_failure env (GroupsGetGroupsBySort s a b) = failure_of (groups_getGroupsBySort env s a b)"
| "call_failure env (GroupsGetGroupCountBySort s) = failure_of (groups_getGroupCountBySort env s)"
| "call_failure env (GroupsGetGroupNameByGroupSlug s) =
     failure_of (groups_getGroupNameByGroupSlug env s)"
| "call_failure env (GroupsExists g) = failure_of (groups_exists env g)"
| "call_failure env (GroupsIsHidden g) = failure_of (groups_isHidden env g)"
| "call_failure env (GroupsIsMember u g) = failure_of (groups_isMember env u g)"
| "call_failure env (GroupsIsInvited u g) = failure_of (groups_isInvited env u g)"
| "call_failure env (GroupsGet g opts) = failure_of (groups_get env g opts)"
| "call_failure env (GroupsGetLatestMemberPosts g n u) =
     failure_of (groups_getLatestMemberPosts env g n u)"
| "call_failure env (GroupsGetGroupData g) = failure_of (groups_getGroupData env g)"

text \<open>
  An async computation run to its end: the value it resolves to or the error it rejects
  with, and the collaborator calls it has made.
\<close>

type_synonym 'a promise = "'a result \<times> call list"

definition resolve :: "'a \<Rightarrow> 'a promise" where
  "resolve x = (Inr x, [])"

text \<open>A collaborator call: its answer, logged under its label.\<close>

definition invoke :: "call \<Rightarrow> 'a result \<Rightarrow> 'a promise" where
  "invoke c r = (r, [c])"

text \<open>\<open>const x = await m; k(x)\<close>: a rejection of \<open>m\<close> is thrown and \<open>k\<close> never runs.\<close>

definition await :: "'a promise \<Rightarrow> ('a \<Rightarrow> 'b promise) \<Rightarrow> 'b promise" where
  "await m k =
     (case fst m of
        Inl e \<Rightarrow> (Inl e, snd m)
      | Inr x \<Rightarrow> (fst (k x), snd m @ snd (k x)))"

text \<open>
  \<open>Promise.all([a, b])\<close>: both computations are started, so the calls of both are made;
  it rejects when one of them does. When both reject, the source rejects with the one
  that settles first; here that is the left one.
\<close>

definition Promise_all :: "'a promise \<Rightarrow> 'b promise \<Rightarrow> ('a \<times> 'b) promise" where
  "Promise_all a b =
     ((case fst a of
         Inl e \<Rightarrow> Inl e
       | Inr x \<Rightarrow> (case fst b of Inl e \<Rightarrow> Inl e | Inr y \<Rightarrow> Inr (x, y))),
      snd a @ snd b)"

section \<open>Requests, configuration and view-models\<close>

record request =
  uid :: int
  url :: string
  params_slug :: string
  query_sort :: qval
  query_page :: qval
  query_query :: qval
  query_filterHidden :: qval
  query_showMembers :: qval
  query_hideEphemeralGroups :: qval
  query_excludeGroups :: qval

text \<open>\<open>nconf.get('url')\<close>, \<open>nconf.get('relative_path')\<close> and \<open>meta.config.allowPrivateGroups\<close>.\<close>

record config =
  nconf_url :: string
  nconf_relative_path :: string
  allowPrivateGroups :: bool

text \<open>An entry handed to \<open>helpers.buildBreadcrumbs\<close>.\<close>

record crumb =
  crumb_text :: string
  crumb_url :: "string option"

text \<open>
  The data given to \<open>res.render\<close>, one record for each template. The pager and the
  breadcrumbs are built by helpers outside the controller: \<open>pagination\<close> holds the page
  and the page count given to \<open>pagination.create\<close>, \<open>breadcrumbs\<close> the entries given to
  \<open>helpers.buildBreadcrumbs\<close>. \<open>canonical\<close> is the href of the link tag put into
  \<open>res.locals\<close>.
\<close>

record list_view =
  lv_canonical :: string
  lv_groups :: "group list"
  lv_allowGroupCreation :: bool
  lv_sort :: string
  lv_pagination :: "int \<times> int"
  lv_title :: string
  lv_breadcrumbs :: "crumb list"

record 'p details_view =
  dv_canonical :: string
  dv_title :: string
  dv_group :: group
  dv_posts :: "'p list"
  dv_isAdmin :: "bool option"
  dv_isGlobalMod :: "bool option"
  dv_allowPrivateGroups :: bool
  dv_breadcrumbs :: "crumb list"

record 'u members_view =
  mv_users :: "'u list"
  mv_pagination :: "int \<times> int"
  mv_breadcrumbs :: "crumb list"

text \<open>
  How a handler ends when nothing is thrown: \<open>res.redirect(location)\<close>, \<open>next()\<close> (the
  request falls through to the not-found handler) or \<open>res.render(template, data)\<close>.
\<close>

datatype 'v outcome = Redirect string | Next | Render 'v

section \<open>The controller\<close>

subsection \<open>Listing and searching\<close>

text \<open>\<open>const resultsPerPage = req.query.query ? 100 : 15\<close>\<close>

definition resultsPerPage :: "request \<Rightarrow> int" where
  "resultsPerPage req = (if truthy (query_query req) then 100 else 15)"

text \<open>\<open>const start = Math.max(0, page - 1) * resultsPerPage\<close>\<close>

definition getGroups_start :: "request \<Rightarrow> int \<Rightarrow> int" where
  "getGroups_start req page = float64 (max 0 (float64 (page - 1)) * resultsPerPage req)"

text \<open>\<open>const stop = start + resultsPerPage - 1\<close>\<close>

definition getGroups_stop :: "request \<Rightarrow> int \<Rightarrow> int" where
  "getGroups_stop req page =
     float64 (float64 (getGroups_start req page + resultsPerPage req) - 1)"

definition getGroups ::
  "('u, 'p) collaborators \<Rightarrow> request \<Rightarrow> qval \<Rightarrow> int \<Rightarrow> (group list \<times> int) promise" where
  "getGroups env req sort' page =
     (let start = getGroups_start req page;
          stop = getGroups_stop req page
      in if truthy (query_query req) then
           await (if query_filterHidden req = QString ''true'' then resolve True
                  else await (invoke (UserIsAdministrator (uid req))
                                (user_isAdministrator env (uid req)))
                         (\<lambda>isAdministrator. resolve (\<not> isAdministrator)))
             (\<lambda>filterHidden.
                let options = \<lparr>so_sort = sort',
                               filterHidden = filterHidden,
                               showMembers = (query_showMembers req = QString ''true''),
                               hideEphemeralGroups =
                                 (query_hideEphemeralGroups req = QString ''true''),
                               excludeGroups =
                                 (case query_excludeGroups req of
                                    QArray xs \<Rightarrow> xs
                                  | _ \<Rightarrow> [])\<rparr>
                in await (invoke (GroupsSearch (query_query req) options)
                            (groups_search env (query_query req) options))
                     (\<lambda>groupData.
                        resolve (slice (elements groupData) start (float64 (stop + 1)),
                                 Math_ceil_div (int (length (elements groupData)))
                                   (resultsPerPage req))))
         else
           await (Promise_all
                    (invoke (GroupsGetGroupsBySort sort' start stop)
                       (groups_getGroupsBySort env sort' start stop))
                    (invoke (GroupsGetGroupCountBySort sort')
                       (groups_getGroupCountBySort env sort')))
             (\<lambda>(groupData, groupCount).
                resolve (groupData, Math_ceil_div groupCount (resultsPerPage req))))"

text \<open>\<open>req.url.replace(/^\/api/, '')\<close>\<close>

definition stripApi :: "string \<Rightarrow> string" where
  "stripApi u = (if take 4 u = ''/api'' then drop 4 u else u)"

definition groupsController_list ::
  "('u, 'p) collaborators \<Rightarrow> config \<Rightarrow> request \<Rightarrow> list_view outcome promise" where
  "groupsController_list env cfg req =
     (let sort' = (if truthy (query_sort req) then query_sort req else QString ''alpha'');
          page = parsePage (query_page req)
      in await (Promise_all
                  (invoke (PrivilegesGlobalCan ''group:create'' (uid req))
                     (privileges_global_can env ''group:create'' (uid req)))
                  (getGroups env req sort' page))
           (\<lambda>(allowGroupCreation, (groupData, pageCount)).
              resolve (Render
                \<lparr>lv_canonical = nconf_url cfg @ stripApi (url req),
                 lv_groups = groupData,
                 lv_allowGroupCreation = allowGroupCreation,
                 lv_sort = validator_escape env (toString sort'),
                 lv_pagination = (page, pageCount),
                 lv_title = ''[[pages:groups]]'',
                 lv_breadcrumbs = [\<lparr>crumb_text = ''[[pages:groups]]'', crumb_url = None\<rparr>]\<rparr>)))"

subsection \<open>Group details\<close>

text \<open>
  The two ways \<open>validateSlugAndRedirect\<close> returns: \<open>true\<close> ("continue processing"), with
  the value \<open>req.params.slug\<close> then has, or \<open>false\<close> ("redirect happened"), with the
  location it gave to \<open>res.redirect\<close>.
\<close>

datatype slug_validation = Continue string | Redirected string

definition validateSlugAndRedirect :: "config \<Rightarrow> bool \<Rightarrow> string \<Rightarrow> slug_validation" where
  "validateSlugAndRedirect cfg isAPI slug =
     (let lowercaseSlug = toLowerCase slug
      in if slug \<noteq> lowercaseSlug then
           if isAPI then Continue lowercaseSlug
           else Redirected (nconf_relative_path cfg @ ''/groups/'' @ lowercaseSlug)
         else Continue slug)"

text \<open>The object \<open>validateGroupAccess\<close> returns; a field it leaves out is \<open>None\<close>.\<close>

record group_access =
  hasAccess :: bool
  ga_isAdmin :: "bool option"
  ga_isGlobalMod :: "bool option"

definition validateGroupAccess ::
  "('u, 'p) collaborators \<Rightarrow> request \<Rightarrow> string \<Rightarrow> group_access promise" where
  "validateGroupAccess env req groupName =
     await (Promise_all
              (invoke (GroupsExists groupName) (groups_exists env groupName))
              (Promise_all
                 (invoke (GroupsIsHidden groupName) (groups_isHidden env groupName))
                 (Promise_all
                    (invoke (PrivilegesAdminCan ''admin:groups'' (uid req))
                       (privileges_admin_can env ''admin:groups'' (uid req)))
                    (invoke (UserIsGlobalModerator (uid req))
                       (user_isGlobalModerator env (uid req))))))
       (\<lambda>(exists, isHidden, isAdmin, isGlobalMod).
          if \<not> exists then resolve \<lparr>hasAccess = False, ga_isAdmin = None, ga_isGlobalMod = None\<rparr>
          else if isHidden \<and> \<not> isAdmin \<and> \<not> isGlobalMod then
            await (Promise_all
                     (invoke (GroupsIsMember (uid req) groupName)
                        (groups_isMember env (uid req) groupName))
                     (invoke (GroupsIsInvited (uid req) groupName)
                        (groups_isInvited env (uid req) groupName)))
              (\<lambda>(isMember, isInvited).
                 if \<not> isMember \<and> \<not> isInvited
                 then resolve \<lparr>hasAccess = False, ga_isAdmin = None, ga_isGlobalMod = None\<rparr>
                 else resolve \<lparr>hasAccess = True, ga_isAdmin = Some isAdmin,
                                ga_isGlobalMod = Some isGlobalMod\<rparr>)
          else resolve \<lparr>hasAccess = True, ga_isAdmin = Some isAdmin,
                         ga_isGlobalMod = Some isGlobalMod\<rparr>)"

definition fetchGroupDetailsData ::
  "('u, 'p) collaborators \<Rightarrow> request \<Rightarrow> string \<Rightarrow> (group option \<times> 'p list) promise" where
  "fetchGroupDetailsData env req groupName =
     (let options = \<lparr>go_uid = uid req, truncateUserList = True, userListCount = 20\<rparr>
      in Promise_all
           (invoke (GroupsGet groupName options) (groups_get env groupName options))
           (invoke (GroupsGetLatestMemberPosts groupName 10 (uid req))
              (groups_getLatestMemberPosts env groupName 10 (uid req))))"

definition renderGroupDetails ::
  "config \<Rightarrow> group \<Rightarrow> 'p list \<Rightarrow> bool option \<Rightarrow> bool option \<Rightarrow> string \<Rightarrow> 'p details_view"
  where
  "renderGroupDetails cfg groupData posts isAdmin isGlobalMod lowercaseSlug =
     \<lparr>dv_canonical = nconf_url cfg @ ''/groups/'' @ lowercaseSlug,
      dv_title = ''[[pages:group, '' @ displayName groupData @ '']]'',
      dv_group = groupData,
      dv_posts = posts,
      dv_isAdmin = isAdmin,
      dv_isGlobalMod = isGlobalMod,
      dv_allowPrivateGroups = allowPrivateGroups cfg,
      dv_breadcrumbs =
        [\<lparr>crumb_text = ''[[pages:groups]]'', crumb_url = Some ''/groups''\<rparr>,
         \<lparr>crumb_text = displayName groupData, crumb_url = None\<rparr>]\<rparr>"

text \<open>
  \<open>groups.getGroupNameByGroupSlug\<close> answers with a name or with nothing; \<open>!groupName\<close>
  holds for nothing and for the empty string. After a redirect the handler returns at
  once.
\<close>

definition groupsController_details ::
  "('u, 'p) collaborators \<Rightarrow> config \<Rightarrow> bool \<Rightarrow> request \<Rightarrow> 'p details_view outcome promise"
  where
  "groupsController_details env cfg isAPI req =
     (case validateSlugAndRedirect cfg isAPI (params_slug req) of
        Redirected location \<Rightarrow> resolve (Redirect location)
      | Continue slug \<Rightarrow>
          let req = req\<lparr>params_slug := slug\<rparr>
          in await (invoke (GroupsGetGroupNameByGroupSlug (params_slug req))
                      (groups_getGroupNameByGroupSlug env (params_slug req)))
               (\<lambda>groupName.
                  case groupName of
                    None \<Rightarrow> resolve Next
                  | Some groupName \<Rightarrow>
                      if groupName = [] then resolve Next
                      else
                        await (validateGroupAccess env req groupName)
                          (\<lambda>access.
                             if \<not> hasAccess access then resolve Next
                             else
                               await (fetchGroupDetailsData env req groupName)
                                 (\<lambda>(groupData, posts).
                                    case groupData of
                                      None \<Rightarrow> resolve Next
                                    | Some groupData \<Rightarrow>
                                        resolve (Render
                                          (renderGroupDetails cfg groupData posts
                                             (ga_isAdmin access) (ga_isGlobalMod access)
                                             (toLowerCase (params_slug req))))))))"

subsection \<open>Group members\<close>

text \<open>\<open>const start = Math.max(0, (page - 1) * usersPerPage)\<close>, with \<open>usersPerPage = 50\<close>\<close>

definition members_start :: "int \<Rightarrow> int" where
  "members_start page = max 0 (float64 (float64 (page - 1) * 50))"

text \<open>\<open>const stop = start + usersPerPage - 1\<close>\<close>

definition members_stop :: "int \<Rightarrow> int" where
  "members_stop page = float64 (float64 (members_start page + 50) - 1)"

definition groupsController_members ::
  "('u, 'p) collaborators \<Rightarrow> request \<Rightarrow> 'u members_view outcome promise" where
  "groupsController_members env req =
     (let page = parsePage (query_page req);
          usersPerPage = 50;
          start = members_start page;
          stop = members_stop page
      in await (invoke (GroupsGetGroupNameByGroupSlug (params_slug req))
                  (groups_getGroupNameByGroupSlug env (params_slug req)))
           (\<lambda>groupName.
              case groupName of
                None \<Rightarrow> resolve Next
              | Some groupName \<Rightarrow>
                  if groupName = [] then resolve Next
                  else
                    await (Promise_all
                             (invoke (GroupsGetGroupData groupName)
                                (groups_getGroupData env groupName))
                             (Promise_all
                                (invoke (UserIsAdminOrGlobalMod (uid req))
                                   (user_isAdminOrGlobalMod env (uid req)))
                                (Promise_all
                                   (invoke (GroupsIsMember (uid req) groupName)
                                      (groups_isMember env (uid req) groupName))
                                   (invoke (GroupsIsHidden groupName)
                                      (groups_isHidden env groupName)))))
                      (\<lambda>(groupData, isAdminOrGlobalMod, isMember, isHidden).
                         if isHidden \<and> \<not> isMember \<and> \<not> isAdminOrGlobalMod then resolve Next
                         else
                           await (invoke (UserGetUsersFromSet
                                            (''group:'' @ groupName @ '':members'')
                                            (uid req) start stop)
                                    (user_getUsersFromSet env
                                       (''group:'' @ groupName @ '':members'')
                                       (uid req) start stop))
                             (\<lambda>users.
                                resolve (Render
                                  \<lparr>mv_users = users,
                                   mv_pagination =
                                     (page, max 1 (Math_ceil_div (memberCount groupData)
                                                     usersPerPage)),
                                   mv_breadcrumbs =
                                     [\<lparr>crumb_text = ''[[pages:groups]]'',
                                       crumb_url = Some ''/groups''\<rparr>,
                                      \<lparr>crumb_text = validator_escape env groupName,
                                       crumb_url = Some (''/groups/'' @ params_slug req)\<rparr>,
                                      \<lparr>crumb_text = ''[[groups:details.members]]'',
                                       crumb_url = None\<rparr>]\<rparr>)))))"

section \<open>Failure propagation\<close>

text \<open>
  Of some collaborator answers, given by their failures: one of them failed; and an
  outcome is a rejection with the failure of one of them.
\<close>

definition any_failed :: "error option list \<Rightarrow> bool" where
  "any_failed answers \<longleftrightarrow> (\<exists>a \<in> set answers. a \<noteq> None)"

definition rejects_among :: "'a result \<Rightarrow> error option list \<Rightarrow> bool" where
  "rejects_among r answers \<longleftrightarrow> (case r of Inl e \<Rightarrow> Some e \<in> set answers | Inr x \<Rightarrow> False)"

section \<open>A small forum, for concrete runs\<close>

text \<open>
  Three groups can be reached by slug: \<open>Staff\<close> is public, \<open>Secret\<close> is hidden, and
  \<open>Racy\<close> has lost its detail record. User 1 is an administrator, user 2 a global
  moderator, user 3 a member of \<open>Secret\<close> and user 4 invited to it.
\<close>

definition demo_groups :: "group list" where
  "demo_groups = map (\<lambda>n. \<lparr>displayName = ''g'', memberCount = int n\<rparr>) [0..<250]"

definition demo_env :: "(string, string) collaborators" where
  "demo_env =
     \<lparr>privileges_global_can = (\<lambda>p u. Inr (u = 1)),
      privileges_admin_can = (\<lambda>p u. Inr (u = 1)),
      user_isAdministrator = (\<lambda>u. Inr (u = 1)),
      user_isGlobalModerator = (\<lambda>u. Inr (u = 2)),
      user_isAdminOrGlobalMod = (\<lambda>u. Inr (u = 1 \<or> u = 2)),
      user_getUsersFromSet = (\<lambda>k u a b. Inr []),
      groups_search = (\<lambda>q opts. Inr (JSArray demo_groups)),
      groups_getGroupsBySort = (\<lambda>s a b. Inr (slice demo_groups a (b + 1))),
      groups_getGroupCountBySort = (\<lambda>s. Inr 32),
      groups_getGroupNameByGroupSlug =
        (\<lambda>s. Inr (if s = ''staff'' then Some ''Staff''
                  else if s = ''secret'' then Some ''Secret''
                  else if s = ''racy'' then Some ''Racy'' else None)),
      groups_exists = (\<lambda>g. Inr (g = ''Staff'' \<or> g = ''Secret'' \<or> g = ''Racy'')),
      groups_isHidden = (\<lambda>g. Inr (g = ''Secret'')),
      groups_isMember = (\<lambda>u g. Inr (u = 3 \<and> g = ''Secret'')),
      groups_isInvited = (\<lambda>u g. Inr (u = 4 \<and> g = ''Secret'')),
      groups_get =
        (\<lambda>g opts. Inr (if g = ''Racy'' then None
                       else Some \<lparr>displayName = g, memberCount = 0\<rparr>)),
      groups_getLatestMemberPosts = (\<lambda>g n u. Inr []),
      groups_getGroupData = (\<lambda>g. Inr \<lparr>displayName = g, memberCount = 0\<rparr>),
      validator_escape = (\<lambda>s. s)\<rparr>"

definition demo_config :: config where
  "demo_config = \<lparr>nconf_url = ''https://forum.example'', nconf_relative_path = ''/forum'',
                   allowPrivateGroups = True\<rparr>"

text \<open>User 4 asks for page 2 and passes \<open>filterHidden=false\<close>.\<close>

definition demo_request :: request where
  "demo_request =
     \<lparr>uid = 4, url = ''/api/groups'', params_slug = ''secret'',
      query_sort = QUndefined, query_page = QString ''2'', query_query = QUndefined,
      query_filterHidden = QString ''false'', query_showMembers = QUndefined,
      query_hideEphemeralGroups = QUndefined, query_excludeGroups = QUndefined\<rparr>"

definition search_request :: request where
  "search_request = demo_request\<lparr>query_query := QString ''mod'', query_page := QString ''3''\<rparr>"

definition forced_options :: search_options where
  "forced_options =
     \<lparr>so_sort = QString ''alpha'', filterHidden = True, showMembers = False,
      hideEphemeralGroups = False, excludeGroups = []\<rparr>"

definition staff_request :: request where
  "staff_request = demo_request\<lparr>params_slug := ''staff''\<rparr>"

definition ghost_request :: request where
  "ghost_request = demo_request\<lparr>params_slug := ''ghost''\<rparr>"

definition racy_request :: request where
  "racy_request = demo_request\<lparr>params_slug := ''racy''\<rparr>"

text \<open>User 5 has no tie to \<open>Secret\<close>.\<close>

definition stranger_request :: request where
  "stranger_request = demo_request\<lparr>uid := 5\<rparr>"

definition shouting_request :: request where
  "shouting_request = demo_request\<lparr>params_slug := ''Secret''\<rparr>"

text \<open>The same forum with a store that fails on the hidden flag and on the group count.\<close>

definition failing_env :: "(string, string) collaborators" where
  "failing_env =
     demo_env\<lparr>groups_isHidden := (\<lambda>g. Inl (CollaboratorFailure ''store down'')),
              groups_getGroupCountBySort := (\<lambda>s. Inl (CollaboratorFailure ''store down''))\<rparr>"

section \<open>Auxiliary facts\<close>

lemmas promise_defs = await_def Promise_all_def invoke_def resolve_def

lemmas demo_defs = demo_env_def demo_config_def demo_request_def search_request_def
  forced_options_def staff_request_def ghost_request_def racy_request_def
  stranger_request_def shouting_request_def failing_env_def

lemma await_Inl: "fst m = Inl e \<Longrightarrow> await m k = (Inl e, snd m)"
  by (simp add: await_def)

lemma await_Inr: "fst m = Inr x \<Longrightarrow> await m k = (fst (k x), snd m @ snd (k x))"
  by (simp add: await_def)

text \<open>On a window that starts inside the non-negative indices, \<open>slice\<close> is take after drop.\<close>

lemma slice_window:
  assumes "0 \<le> s" and "0 \<le> n"
  shows "slice xs s (s + n) = take (nat n) (drop (nat s) xs)"
proof (cases "s \<le> int (length xs)")
  case True
  have "take (nat (min (s + n) (int (length xs)) - s)) (drop (nat s) xs) =
        take (min (nat n) (length xs - nat s)) (drop (nat s) xs)"
    using assms True by (intro arg_cong2[where f = take]) auto
  also have "\<dots> = take (nat n) (drop (nat s) xs)"
    by (simp add: min_def)
  finally show ?thesis
    using assms True by (simp add: slice_def Let_def min_absorb1)
next
  case False
  then show ?thesis
    using assms by (simp add: slice_def Let_def min_def)
qed

subsection \<open>Rounding to a double\<close>

lemma ulp_small: "n < 2 ^ 53 \<Longrightarrow> ulp n = 1"
  by (simp add: ulp.simps)

lemma ulp_pos: "0 < ulp n"
  by (induction n rule: ulp.induct) (subst ulp.simps, simp)

lemma ulp_bound: "2 ^ 52 \<le> n \<Longrightarrow> ulp n * 2 ^ 52 \<le> n"
proof (induction n rule: ulp.induct)
  case (1 n)
  show ?case
  proof (cases "n < 2 ^ 53")
    case True
    with "1.prems" show ?thesis
      by (simp add: ulp_small)
  next
    case False
    then have half: "2 ^ 52 \<le> n div 2"
      by simp
    from "1.IH"[OF False half] have "2 * (ulp (n div 2) * 2 ^ 52) \<le> 2 * (n div 2)"
      by simp
    also have "\<dots> \<le> n"
      by simp
    finally show ?thesis
      using False by (subst ulp.simps) (simp add: mult.assoc)
  qed
qed

lemma ulp_edge: "ulp (2 ^ 53) = 2"
  by (subst ulp.simps, subst ulp.simps) simp

text \<open>Whole numbers up to \<open>2^53\<close> in magnitude are doubles.\<close>

lemma float64_exact: "\<bar>x\<bar> \<le> 2 ^ 53 \<Longrightarrow> float64 x = x"
proof -
  assume b: "\<bar>x\<bar> \<le> 2 ^ 53"
  consider "\<bar>x\<bar> < 2 ^ 53" | "x = 2 ^ 53" | "x = - (2 ^ 53)"
    using b by linarith
  then show ?thesis
  proof cases
    case 1
    then have "ulp \<bar>x\<bar> = 1"
      by (rule ulp_small)
    then show ?thesis
      by (simp add: float64_def)
  next
    case 2
    then have "\<bar>x\<bar> = 2 ^ 53" by simp
    then have "ulp \<bar>x\<bar> = 2" by (simp only: ulp_edge)
    with 2 show ?thesis
      by (simp add: float64_def)
  next
    case 3
    then have "\<bar>x\<bar> = 2 ^ 53" by simp
    then have "ulp \<bar>x\<bar> = 2" by (simp only: ulp_edge)
    with 3 show ?thesis
      by (simp add: float64_def)
  qed
qed

lemma float64_floor: "x div ulp \<bar>x\<bar> * ulp \<bar>x\<bar> \<le> float64 x"
proof -
  have "0 < ulp \<bar>x\<bar>" by (rule ulp_pos)
  then show ?thesis
    by (auto simp: float64_def Let_def algebra_simps)
qed

lemma float64_nonneg: "0 \<le> x \<Longrightarrow> 0 \<le> float64 x"
proof -
  assume x: "0 \<le> x"
  have u: "0 < ulp \<bar>x\<bar>" by (rule ulp_pos)
  with x have "0 \<le> x div ulp \<bar>x\<bar>"
    by (simp add: pos_imp_zdiv_nonneg_iff)
  with u have "0 \<le> x div ulp \<bar>x\<bar> * ulp \<bar>x\<bar>"
    by simp
  with float64_floor[of x] show ?thesis by linarith
qed

lemma float64_nonpos: "x \<le> 0 \<Longrightarrow> float64 x \<le> 0"
proof -
  assume x: "x \<le> 0"
  define u where "u = ulp \<bar>x\<bar>"
  have u: "0 < u" using ulp_pos by (simp add: u_def)
  define q where "q = x div u"
  define r where "r = x mod u"
  have x_eq: "x = q * u + r" by (simp add: q_def r_def)
  have r: "0 \<le> r" "r < u" using u by (simp_all add: r_def)
  have low: "q * u \<le> 0" using x x_eq r by linarith
  have up: "(q + 1) * u \<le> 0" if "0 < r"
  proof -
    from that x x_eq have "q * u < 0" by linarith
    with u have "q < 0" by (simp add: mult_less_0_iff)
    then have "q + 1 \<le> 0" by simp
    with u show ?thesis by (simp add: mult_le_0_iff)
  qed
  have "float64 x = (if 2 * r < u then q * u
         else if u < 2 * r then (q + 1) * u
         else if even q then q * u else (q + 1) * u)"
    by (simp add: float64_def Let_def u_def q_def r_def)
  with low up r u show ?thesis
    by (auto split: if_splits)
qed

text \<open>Rounding loses less than half of a non-negative number.\<close>

lemma float64_half: "0 \<le> x \<Longrightarrow> x \<le> 2 * float64 x"
proof (cases "x \<le> 2 ^ 53")
  case True
  assume "0 \<le> x"
  with True show ?thesis by (simp add: float64_exact)
next
  case False
  assume x: "0 \<le> x"
  define u where "u = ulp \<bar>x\<bar>"
  have u: "0 < u" using ulp_pos by (simp add: u_def)
  from False x have "2 ^ 52 \<le> \<bar>x\<bar>"
    by simp
  from ulp_bound[OF this] x have "u * 2 ^ 52 \<le> x"
    by (simp add: u_def)
  moreover have "2 * u \<le> u * 2 ^ 52" using u by simp
  ultimately have small: "2 * u \<le> x" by linarith
  have "x = x div u * u + x mod u" by simp
  moreover have "x mod u < u" using u by simp
  ultimately have "x - u < x div u * u" by linarith
  with float64_floor[of x] have "x - u < float64 x" by (simp add: u_def)
  with small show ?thesis by linarith
qed

subsection \<open>The window of \<open>getGroups\<close>\<close>

text \<open>While the end of the window stays within \<open>2^53\<close>, nothing is rounded.\<close>

lemma getGroups_window_exact:
  assumes "p \<le> 1 \<or> (p - 1) * resultsPerPage req + resultsPerPage req \<le> 2 ^ 53"
  shows "getGroups_start req p = max 0 (p - 1) * resultsPerPage req"
    and "getGroups_stop req p = max 0 (p - 1) * resultsPerPage req + resultsPerPage req - 1"
    and "float64 (getGroups_stop req p + 1) =
           max 0 (p - 1) * resultsPerPage req + resultsPerPage req"
proof -
  define c where "c = resultsPerPage req"
  have c: "c = 100 \<or> c = 15"
    by (simp add: c_def resultsPerPage_def)
  define m where "m = max 0 (p - 1)"
  have m: "0 \<le> m" "m * c + c \<le> 2 ^ 53"
    using assms c by (auto simp: m_def c_def max_def)
  have first: "max 0 (float64 (p - 1)) = m"
  proof (cases "p \<le> 1")
    case True
    then have "float64 (p - 1) \<le> 0"
      by (intro float64_nonpos) simp
    with True show ?thesis
      by (simp add: m_def max_def)
  next
    case False
    with m c have "\<bar>p - 1\<bar> \<le> 2 ^ 53"
      by (auto simp: m_def max_def)
    then show ?thesis
      by (simp add: float64_exact m_def)
  qed
  have small: "\<bar>m * c\<bar> \<le> 2 ^ 53" "\<bar>m * c + c\<bar> \<le> 2 ^ 53"
    "\<bar>m * c + c - 1\<bar> \<le> 2 ^ 53"
    using m c by auto
  show start: "getGroups_start req p = max 0 (p - 1) * resultsPerPage req"
    using small(1) by (simp add: getGroups_start_def first float64_exact c_def[symmetric])
      (simp add: m_def)
  show stop: "getGroups_stop req p =
                max 0 (p - 1) * resultsPerPage req + resultsPerPage req - 1"
    using small(2,3)
    by (simp add: getGroups_stop_def start float64_exact m_def[symmetric] c_def[symmetric])
  from small(2) show "float64 (getGroups_stop req p + 1) =
           max 0 (p - 1) * resultsPerPage req + resultsPerPage req"
    by (simp add: stop float64_exact m_def[symmetric] c_def[symmetric])
qed

text \<open>Beyond that, the window starts past the end of every array.\<close>

lemma getGroups_start_large:
  assumes "1 < p" and "2 ^ 53 < (p - 1) * resultsPerPage req + resultsPerPage req"
  shows "2 ^ 32 \<le> getGroups_start req p"
proof -
  define c where "c = resultsPerPage req"
  have c: "c = 100 \<or> c = 15"
    by (simp add: c_def resultsPerPage_def)
  define a where "a = float64 (p - 1)"
  have a: "p - 1 \<le> 2 * a" "0 \<le> a"
    using assms(1) float64_half[of "p - 1"] float64_nonneg[of "p - 1"] by (simp_all add: a_def)
  have "a * c \<le> 2 * float64 (a * c)"
    using a(2) c by (intro float64_half) auto
  moreover have "(p - 1) * c \<le> 2 * (a * c)"
    using a(1) c by auto
  moreover have "2 ^ 53 - 100 < (p - 1) * c"
    using assms(2) c by (auto simp: c_def)
  ultimately have "2 ^ 53 - 100 < 4 * float64 (a * c)"
    by linarith
  then have "2 ^ 32 \<le> float64 (a * c)"
    by simp
  with a(2) show ?thesis
    by (simp add: getGroups_start_def a_def c_def max_def)
qed


lemma members_window_two: "members_start 2 = 50" "members_stop 2 = 99"
  by code_simp+

lemma elements_demo_groups: "elements (JSArray demo_groups) = demo_groups"
  by (simp add: JSArray_inverse demo_groups_def)

lemma length_demo_groups: "length demo_groups = 250"
  by (simp add: demo_groups_def)

lemma lower_slugs:
  "toLowerCase ''ghost'' = ''ghost''" "toLowerCase ''secret'' = ''secret''"
  "toLowerCase ''racy'' = ''racy''" "toLowerCase ''staff'' = ''staff''"
  "toLowerCase ''Secret'' = ''secret''"
  by code_simp+

lemma page_two: "parsePage (QString ''2'') = 2"
  by code_simp

text \<open>The access check and the detail fetch read the principal of a request, not its slug.\<close>

lemma validateGroupAccess_slug:
  "validateGroupAccess env (req\<lparr>params_slug := s\<rparr>) g = validateGroupAccess env req g"
  by (simp add: validateGroupAccess_def cong: if_cong)

lemma fetchGroupDetailsData_slug:
  "fetchGroupDetailsData env (req\<lparr>params_slug := s\<rparr>) g = fetchGroupDetailsData env req g"
  by (simp add: fetchGroupDetailsData_def)

subsection \<open>Lower-casing is idempotent\<close>

lemma lowerChar_idem: "lowerChar (lowerChar c) = lowerChar c"
proof (cases "65 \<le> (of_char c :: nat) \<and> (of_char c :: nat) \<le> 90")
  case True
  then have "(of_char (char_of ((of_char c :: nat) + 32)) :: nat) = of_char c + 32"
    by simp
  with True show ?thesis
    by (simp add: lowerChar_def)
next
  case False
  then show ?thesis
    by (auto simp: lowerChar_def)
qed

lemma toLowerCase_idem: "toLowerCase (toLowerCase s) = toLowerCase s"
  by (simp add: toLowerCase_def lowerChar_idem)

text \<open>So the slug a redirect points to, or an API request continues with, passes unchanged.\<close>

lemma validateSlugAndRedirect_canonical:
  "validateSlugAndRedirect cfg isAPI (toLowerCase slug) = Continue (toLowerCase slug)"
  by (simp add: validateSlugAndRedirect_def toLowerCase_idem)

subsection \<open>The search call of \<open>getGroups\<close>\<close>


text \<open>In search mode the search call is made as soon as the administrator lookup answers.\<close>

lemma search_call_made:
  assumes "truthy (query_query req)"
    and "query_filterHidden req \<noteq> QString ''true'' \<Longrightarrow>
           user_isAdministrator env (uid req) = Inr a"
  shows "\<exists>opts. GroupsSearch (query_query req) opts \<in> set (snd (getGroups env req s p))"
proof (cases "query_filterHidden req = QString ''true''")
  case True
  with assms(1) show ?thesis
    by (auto simp: getGroups_def Let_def promise_defs split: sum.splits)
next
  case False
  with assms(1) assms(2)[OF False] show ?thesis
    by (auto simp: getGroups_def Let_def promise_defs split: sum.splits)
qed

subsection \<open>Failures among collaborator answers\<close>

lemma failure_of_Some: "failure_of r = Some e \<longleftrightarrow> r = Inl e"
  by (cases r) simp_all

lemma failure_of_None: "failure_of r = None \<longleftrightarrow> (\<exists>x. r = Inr x)"
  by (cases r) simp_all

lemmas failure_defs = any_failed_def rejects_among_def failure_of_Some failure_of_None

lemma rejects_among_one:
  "rejects_among r answers \<Longrightarrow> set answers \<subseteq> {None, Some e} \<Longrightarrow> r = Inl e"
  by (cases r) (auto simp: rejects_among_def)

section \<open>The claims\<close>



text \<open>
  \<^bold>\<open>C2.\<close> When the lookups succeed, \<open>validateGroupAccess\<close> grants access exactly when the
  group exists and is not hidden, or exists, is hidden and the principal is an
  administrator, a global moderator, a member or invited; a group that does not exist
  gives no access. Membership and invitation are only looked up for a hidden existing
  group and a principal who is neither administrator nor global moderator.
\<close>

theorem validateGroupAccess_verdict:
  assumes "groups_exists env g = Inr ex"
    and "groups_isHidden env g = Inr h"
    and "privileges_admin_can env ''admin:groups'' (uid req) = Inr a"
    and "user_isGlobalModerator env (uid req) = Inr gm"
    and "ex \<and> h \<and> \<not> a \<and> \<not> gm \<Longrightarrow>
           groups_isMember env (uid req) g = Inr m \<and> groups_isInvited env (uid req) g = Inr i"
  shows "\<exists>r. fst (validateGroupAccess env req g) = Inr r \<and>
             (hasAccess r \<longleftrightarrow> ex \<and> (\<not> h \<or> a \<or> gm \<or> m \<or> i))"
  using assms by (auto simp: validateGroupAccess_def promise_defs)

theorem validateGroupAccess_verdict_witness:
  "\<exists>r. fst (validateGroupAccess demo_env demo_request ''Secret'') = Inr r \<and>
       (hasAccess r \<longleftrightarrow> True \<and> (\<not> True \<or> False \<or> False \<or> False \<or> True))"
proof -
  have 1: "groups_exists demo_env ''Secret'' = Inr True"
    and 2: "groups_isHidden demo_env ''Secret'' = Inr True"
    and 3: "privileges_admin_can demo_env ''admin:groups'' (uid demo_request) = Inr False"
    and 4: "user_isGlobalModerator demo_env (uid demo_request) = Inr False"
    and 5: "groups_isMember demo_env (uid demo_request) ''Secret'' = Inr False \<and>
            groups_isInvited demo_env (uid demo_request) ''Secret'' = Inr True"
    by (simp_all add: demo_defs)
  from validateGroupAccess_verdict[OF 1 2 3 4 5] show ?thesis .
qed

text \<open>
  \<^bold>\<open>C3.\<close> Once the slug has passed \<open>validateSlugAndRedirect\<close>, the details operation
  ends with the same \<open>next()\<close> for a slug that resolves to no group, for a group the
  access check denies (a hidden group the principal may not view) and for a group whose
  detail record is absent after the slug resolved; the outcomes of the handler are a
  redirect, \<open>next()\<close> and a rendered page, and none of them is a forbidden answer. A
  non-API request with a slug that is not in lower case is redirected before any lookup,
  whatever the group.
\<close>

theorem details_not_found_alike:
  "(validateSlugAndRedirect cfg isAPI (params_slug req) = Redirected location \<longrightarrow>
      groupsController_details env cfg isAPI req = (Inr (Redirect location), [])) \<and>
   (validateSlugAndRedirect cfg isAPI (params_slug req) = Continue slug \<longrightarrow>
      ((groups_getGroupNameByGroupSlug env slug = Inr None \<or>
        groups_getGroupNameByGroupSlug env slug = Inr (Some [])) \<longrightarrow>
         fst (groupsController_details env cfg isAPI req) = Inr Next) \<and>
      (groups_getGroupNameByGroupSlug env slug = Inr (Some g) \<and> g \<noteq> [] \<and>
       fst (validateGroupAccess env req g) = Inr r \<and> \<not> hasAccess r \<longrightarrow>
         fst (groupsController_details env cfg isAPI req) = Inr Next) \<and>
      (groups_getGroupNameByGroupSlug env slug = Inr (Some g) \<and> g \<noteq> [] \<and>
       fst (validateGroupAccess env req g) = Inr r \<and> hasAccess r \<and>
       groups_get env g \<lparr>go_uid = uid req, truncateUserList = True, userListCount = 20\<rparr>
         = Inr None \<and>
       groups_getLatestMemberPosts env g 10 (uid req) = Inr posts \<longrightarrow>
         fst (groupsController_details env cfg isAPI req) = Inr Next))"
  by (auto simp: groupsController_details_def Let_def validateGroupAccess_slug
                 fetchGroupDetailsData_slug fetchGroupDetailsData_def promise_defs)

theorem details_not_found_alike_witness:
  "groupsController_details demo_env demo_config False shouting_request =
     (Inr (Redirect ''/forum/groups/secret''), []) \<and>
   fst (groupsController_details demo_env demo_config False ghost_request) = Inr Next \<and>
   fst (groupsController_details demo_env demo_config False stranger_request) = Inr Next \<and>
   fst (groupsController_details demo_env demo_config False racy_request) = Inr Next"
proof -
  have away: "validateSlugAndRedirect demo_config False (params_slug shouting_request) =
                Redirected ''/forum/groups/secret''"
    by (simp add: validateSlugAndRedirect_def demo_defs lower_slugs)
  have go: "validateSlugAndRedirect demo_config False (params_slug ghost_request) =
              Continue ''ghost''"
    "validateSlugAndRedirect demo_config False (params_slug stranger_request) =
       Continue ''secret''"
    "validateSlugAndRedirect demo_config False (params_slug racy_request) = Continue ''racy''"
    by (simp_all add: validateSlugAndRedirect_def demo_defs lower_slugs)
  have unknown: "groups_getGroupNameByGroupSlug demo_env ''ghost'' = Inr None"
    by (simp add: demo_defs)
  have hidden:
    "groups_getGroupNameByGroupSlug demo_env ''secret'' = Inr (Some ''Secret'') \<and>
     ''Secret'' \<noteq> [] \<and>
     fst (validateGroupAccess demo_env stranger_request ''Secret'')
       = Inr \<lparr>hasAccess = False, ga_isAdmin = None, ga_isGlobalMod = None\<rparr> \<and>
     \<not> hasAccess \<lparr>hasAccess = False, ga_isAdmin = None, ga_isGlobalMod = None\<rparr>"
    by (simp add: demo_defs validateGroupAccess_def promise_defs)
  have gone:
    "groups_getGroupNameByGroupSlug demo_env ''racy'' = Inr (Some ''Racy'') \<and>
     ''Racy'' \<noteq> [] \<and>
     fst (validateGroupAccess demo_env racy_request ''Racy'')
       = Inr \<lparr>hasAccess = True, ga_isAdmin = Some False, ga_isGlobalMod = Some False\<rparr> \<and>
     hasAccess \<lparr>hasAccess = True, ga_isAdmin = Some False, ga_isGlobalMod = Some False\<rparr> \<and>
     groups_get demo_env ''Racy''
       \<lparr>go_uid = uid racy_request, truncateUserList = True, userListCount = 20\<rparr> = Inr None \<and>
     groups_getLatestMemberPosts demo_env ''Racy'' 10 (uid racy_request) = Inr []"
    by (simp add: demo_defs validateGroupAccess_def promise_defs)
  from details_not_found_alike[of demo_config False shouting_request _ demo_env] away
  have 0: "groupsController_details demo_env demo_config False shouting_request =
             (Inr (Redirect ''/forum/groups/secret''), [])"
    by blast
  from details_not_found_alike[of demo_config False ghost_request _ demo_env] go(1) unknown
  have 1: "fst (groupsController_details demo_env demo_config False ghost_request) = Inr Next"
    by blast
  from details_not_found_alike[of demo_config False stranger_request _ demo_env] go(2) hidden
  have 2: "fst (groupsController_details demo_env demo_config False stranger_request) = Inr Next"
    by blast
  from details_not_found_alike[of demo_config False racy_request _ demo_env] go(3) gone
  have 3: "fst (groupsController_details demo_env demo_config False racy_request) = Inr Next"
    by blast
  from 0 1 2 3 show ?thesis
    by blast
qed

text \<open>
  \<^bold>\<open>C4.\<close> If lower-casing leaves the slug unchanged, \<open>validateSlugAndRedirect\<close> continues with
  the original slug and sends no redirect; if it changes the slug and the request is an
  API request, it continues with the lower-cased slug put into the request and sends no
  redirect; if it changes the slug and the request is not an API request, it stops and
  redirects to a location built from the lower-cased slug.
\<close>

theorem validateSlugAndRedirect_cases:
  "(toLowerCase slug = slug \<longrightarrow>
      validateSlugAndRedirect cfg isAPI slug = Continue slug) \<and>
   (toLowerCase slug \<noteq> slug \<and> isAPI \<longrightarrow>
      validateSlugAndRedirect cfg isAPI slug = Continue (toLowerCase slug)) \<and>
   (toLowerCase slug \<noteq> slug \<and> \<not> isAPI \<longrightarrow>
      validateSlugAndRedirect cfg isAPI slug =
        Redirected (nconf_relative_path cfg @ ''/groups/'' @ toLowerCase slug))"
  by (auto simp: validateSlugAndRedirect_def Let_def)

theorem validateSlugAndRedirect_cases_witness:
  "toLowerCase ''secret'' = ''secret'' \<and> toLowerCase ''Secret'' \<noteq> ''Secret'' \<and>
   validateSlugAndRedirect demo_config False ''secret'' = Continue ''secret'' \<and>
   validateSlugAndRedirect demo_config True ''Secret'' = Continue ''secret'' \<and>
   validateSlugAndRedirect demo_config False ''Secret'' = Redirected ''/forum/groups/secret''"
proof -
  have low: "toLowerCase ''secret'' = ''secret''"
    by (rule lower_slugs)
  have up: "toLowerCase ''Secret'' \<noteq> ''Secret''"
    by (simp add: lower_slugs)
  note same = validateSlugAndRedirect_cases[of "''secret''" demo_config False]
  note api = validateSlugAndRedirect_cases[of "''Secret''" demo_config True]
  note browser = validateSlugAndRedirect_cases[of "''Secret''" demo_config False]
  from low up same api browser show ?thesis
    by (simp add: lower_slugs demo_config_def)
qed

text \<open>
  \<^bold>\<open>C5.\<close> In search mode, when the lookups succeed, \<open>getGroups\<close> returns the items at the
  indices from \<open>max(0, p - 1) * 100\<close> up to, not including, that plus 100 of the matched
  array, with \<open>pageCount = ceil(matchedCount / 100)\<close>; a page number beyond
  \<open>pageCount\<close> gives the empty sequence with the same \<open>pageCount\<close>. This holds for
  every page: where the offsets are rounded, they are past the end of every array.
\<close>

theorem search_slice_and_pageCount:
  assumes q: "truthy (query_query req)"
    and adm: "query_filterHidden req \<noteq> QString ''true'' \<Longrightarrow>
                user_isAdministrator env (uid req) = Inr a"
    and found: "groups_search env (query_query req)
                  \<lparr>so_sort = s,
                   filterHidden = (query_filterHidden req = QString ''true'' \<or> \<not> a),
                   showMembers = (query_showMembers req = QString ''true''),
                   hideEphemeralGroups = (query_hideEphemeralGroups req = QString ''true''),
                   excludeGroups = (case query_excludeGroups req of QArray xs \<Rightarrow> xs | _ \<Rightarrow> [])\<rparr>
                = Inr matched"
  shows "fst (getGroups env req s p) =
           Inr (take 100 (drop (nat (max 0 (p - 1) * 100)) (elements matched)),
                \<lceil>real (length (elements matched)) / 100\<rceil>) \<and>
         (\<lceil>real (length (elements matched)) / 100\<rceil> < p \<longrightarrow>
            take 100 (drop (nat (max 0 (p - 1) * 100)) (elements matched)) = [])"
proof -
  define xs where "xs = elements matched"
  have len: "int (length xs) < 2 ^ 32"
    using elements[of matched] by (simp add: xs_def)
  define start where "start = max 0 (p - 1) * 100"
  have rpp: "resultsPerPage req = 100"
    using q by (simp add: resultsPerPage_def)
  have "0 \<le> start"
    by (simp add: start_def)
  have win: "slice xs (getGroups_start req p) (float64 (getGroups_stop req p + 1)) =
               take 100 (drop (nat start) xs)"
  proof (cases "p \<le> 1 \<or> (p - 1) * 100 + 100 \<le> 2 ^ 53")
    case True
    then have safe: "p \<le> 1 \<or> (p - 1) * resultsPerPage req + resultsPerPage req \<le> 2 ^ 53"
      by (simp add: rpp)
    have first: "getGroups_start req p = start"
      using getGroups_window_exact(1)[OF safe] by (simp add: rpp start_def)
    have last: "float64 (getGroups_stop req p + 1) = start + 100"
      using getGroups_window_exact(3)[OF safe] by (simp add: rpp start_def)
    from \<open>0 \<le> start\<close> have "slice xs start (start + 100) = take 100 (drop (nat start) xs)"
      using slice_window[of start 100 xs] by simp
    then show ?thesis
      by (simp only: first last)
  next
    case False
    then have big: "1 < p" "2 ^ 53 < (p - 1) * resultsPerPage req + resultsPerPage req"
      by (simp_all add: rpp)
    from getGroups_start_large[OF big] len
    have far: "int (length xs) \<le> getGroups_start req p"
      by linarith
    have "0 \<le> getGroups_start req p + 100"
      using far by linarith
    from float64_half[OF this] far have "0 \<le> float64 (getGroups_start req p + 100) - 1"
      by linarith
    then have "0 \<le> getGroups_stop req p"
      unfolding getGroups_stop_def rpp by (rule float64_nonneg)
    then have "0 \<le> getGroups_stop req p + 1"
      by simp
    then have "0 \<le> float64 (getGroups_stop req p + 1)"
      by (rule float64_nonneg)
    with far have left: "slice xs (getGroups_start req p) (float64 (getGroups_stop req p + 1)) = []"
      by (simp add: slice_def Let_def min_def)
    from False have "2 ^ 53 - 100 < start"
      by (simp add: start_def max_def)
    with len have "int (length xs) \<le> start"
      by simp
    then have "take 100 (drop (nat start) xs) = []"
      by simp
    with left show ?thesis
      by simp
  qed
  have res: "fst (getGroups env req s p) =
           Inr (take 100 (drop (nat start) xs), \<lceil>real (length xs) / 100\<rceil>)"
  proof (cases "query_filterHidden req = QString ''true''")
    case True
    with q found show ?thesis
      by (simp add: getGroups_def rpp win[unfolded xs_def] promise_defs Math_ceil_div_def xs_def)
  next
    case False
    with q found adm[OF False] show ?thesis
      by (simp add: getGroups_def rpp win[unfolded xs_def] promise_defs Math_ceil_div_def xs_def)
  qed
  have beyond: "take 100 (drop (nat start) xs) = []"
    if "\<lceil>real (length xs) / 100\<rceil> < p"
  proof -
    have "int (length xs) \<le> 100 * \<lceil>real (length xs) / 100\<rceil>"
      using le_of_int_ceiling[of "real (length xs) / 100"] by linarith
    with that have "int (length xs) \<le> start"
      unfolding start_def by (simp add: max_def)
    then show ?thesis by simp
  qed
  from res beyond show ?thesis unfolding start_def xs_def by blast
qed

theorem search_slice_and_pageCount_witness:
  "fst (getGroups demo_env search_request (QString ''alpha'') 3) =
     Inr (take 100 (drop 200 demo_groups), 3) \<and>
   fst (getGroups demo_env search_request (QString ''alpha'') 4) = Inr ([], 3)"
proof -
  have q: "truthy (query_query search_request)"
    by (simp add: demo_defs)
  have adm: "user_isAdministrator demo_env (uid search_request) = Inr False"
    by (simp add: demo_defs)
  have found: "groups_search demo_env (query_query search_request) opts =
                 Inr (JSArray demo_groups)"
    for opts
    by (simp add: demo_defs)
  have pc: "\<lceil>real (length demo_groups) / 100\<rceil> = 3"
    by (simp add: length_demo_groups ceiling_divide_eq_div)
  from search_slice_and_pageCount[OF q adm found, of "QString ''alpha''" 3]
       search_slice_and_pageCount[OF q adm found, of "QString ''alpha''" 4]
  show ?thesis
    by (simp add: pc elements_demo_groups)
qed






text \<open>
  \<^bold>\<open>C8.\<close> The members operation never calls \<open>groups.isInvited\<close>. For a hidden group, a
  principal who is invited, but is no member, no administrator and no global moderator,
  gets \<open>next()\<close> from the members operation, while \<open>validateGroupAccess\<close>, the check of
  the details operation, grants the same principal access.
\<close>

theorem members_ignores_invitation:
  assumes "groups_getGroupNameByGroupSlug env (params_slug req) = Inr (Some g)"
    and "g \<noteq> []"
    and "groups_getGroupData env g = Inr gd"
    and "groups_exists env g = Inr True"
    and "groups_isHidden env g = Inr True"
    and "groups_isMember env (uid req) g = Inr False"
    and "groups_isInvited env (uid req) g = Inr True"
    and "user_isAdminOrGlobalMod env (uid req) = Inr False"
    and "privileges_admin_can env ''admin:groups'' (uid req) = Inr False"
    and "user_isGlobalModerator env (uid req) = Inr False"
  shows "fst (groupsController_members env req) = Inr Next \<and>
         (\<exists>r. fst (validateGroupAccess env req g) = Inr r \<and> hasAccess r) \<and>
         GroupsIsInvited u' g' \<notin> set (snd (groupsController_members env' req'))"
proof -
  have 1: "fst (groupsController_members env req) = Inr Next"
    using assms by (simp add: groupsController_members_def Let_def promise_defs)
  have 2: "\<exists>r. fst (validateGroupAccess env req g) = Inr r \<and> hasAccess r"
    using assms by (simp add: validateGroupAccess_def promise_defs)
  have 3: "GroupsIsInvited u' g' \<notin> set (snd (groupsController_members env' req'))"
    by (auto simp: groupsController_members_def Let_def promise_defs
             split: sum.splits option.splits if_splits prod.splits)
  from 1 2 3 show ?thesis by blast
qed

theorem members_ignores_invitation_witness:
  "groups_isInvited demo_env (uid demo_request) ''Secret'' = Inr True \<and>
   fst (groupsController_members demo_env demo_request) = Inr Next \<and>
   (\<exists>r. fst (validateGroupAccess demo_env demo_request ''Secret'') = Inr r \<and> hasAccess r) \<and>
   GroupsIsInvited 4 ''Secret'' \<notin> set (snd (groupsController_members demo_env demo_request))"
proof -
  have 1: "groups_getGroupNameByGroupSlug demo_env (params_slug demo_request) = Inr (Some ''Secret'')"
    and 2: "''Secret'' \<noteq> []"
    and 3: "groups_getGroupData demo_env ''Secret'' = Inr \<lparr>displayName = ''Secret'', memberCount = 0\<rparr>"
    and 4: "groups_exists demo_env ''Secret'' = Inr True"
    and 5: "groups_isHidden demo_env ''Secret'' = Inr True"
    and 6: "groups_isMember demo_env (uid demo_request) ''Secret'' = Inr False"
    and 7: "groups_isInvited demo_env (uid demo_request) ''Secret'' = Inr True"
    and 8: "user_isAdminOrGlobalMod demo_env (uid demo_request) = Inr False"
    and 9: "privileges_admin_can demo_env ''admin:groups'' (uid demo_request) = Inr False"
    and 10: "user_isGlobalModerator demo_env (uid demo_request) = Inr False"
    by (simp_all add: demo_defs)
  from members_ignores_invitation[OF 1 2 3 4 5 6 7 8 9 10, of 4 "''Secret''" demo_env demo_request] 7
  show ?thesis
    by blast
qed

text \<open>
  \<^bold>\<open>C9.\<close> The list, details and members operations, and the access check, propagate
  collaborator failures. For every call an operation makes, stated over the answers of the
  collaborators: if the call is reached and its answer is a failure, the operation
  rejects, and it rejects with that failure or, when other calls awaited together with it
  failed too, with one of theirs. So nothing is rendered and no default takes the place
  of a failed answer.
\<close>

theorem collaborator_failures_propagate:
  assumes u: "u = uid req"
    and s: "s = (if truthy (query_sort req) then query_sort req else QString ''alpha'')"
    and p: "p = parsePage (query_page req)"
    and can: "can = failure_of (privileges_global_can env ''group:create'' u)"
    and listing:
      "listing =
         [can,
          failure_of (groups_getGroupsBySort env s (getGroups_start req p) (getGroups_stop req p)),
          failure_of (groups_getGroupCountBySort env s)]"
    and options:
      "options =
         \<lparr>so_sort = s,
          filterHidden = (query_filterHidden req = QString ''true'' \<or> \<not> adm),
          showMembers = (query_showMembers req = QString ''true''),
          hideEphemeralGroups = (query_hideEphemeralGroups req = QString ''true''),
          excludeGroups = (case query_excludeGroups req of QArray xs \<Rightarrow> xs | _ \<Rightarrow> [])\<rparr>"
    and access:
      "access =
         [failure_of (groups_exists env g),
          failure_of (groups_isHidden env g),
          failure_of (privileges_admin_can env ''admin:groups'' u),
          failure_of (user_isGlobalModerator env u)]"
    and ties:
      "ties = [failure_of (groups_isMember env u g), failure_of (groups_isInvited env u g)]"
    and fetches:
      "fetches =
         [failure_of (groups_get env g
                        \<lparr>go_uid = u, truncateUserList = True, userListCount = 20\<rparr>),
          failure_of (groups_getLatestMemberPosts env g 10 u)]"
    and lookups:
      "lookups =
         [failure_of (groups_getGroupData env g),
          failure_of (user_isAdminOrGlobalMod env u),
          failure_of (groups_isMember env u g),
          failure_of (groups_isHidden env g)]"
  shows
    "(\<not> truthy (query_query req) \<and> any_failed listing \<longrightarrow>
        rejects_among (fst (groupsController_list env cfg req)) listing) \<and>
     (truthy (query_query req) \<and> query_filterHidden req \<noteq> QString ''true'' \<and>
      any_failed [can, failure_of (user_isAdministrator env u)] \<longrightarrow>
        rejects_among (fst (groupsController_list env cfg req))
          [can, failure_of (user_isAdministrator env u)]) \<and>
     (truthy (query_query req) \<and>
      (query_filterHidden req = QString ''true'' \<or> user_isAdministrator env u = Inr adm) \<and>
      any_failed [can, failure_of (groups_search env (query_query req) options)] \<longrightarrow>
        rejects_among (fst (groupsController_list env cfg req))
          [can, failure_of (groups_search env (query_query req) options)]) \<and>
     (any_failed access \<longrightarrow> rejects_among (fst (validateGroupAccess env req g)) access) \<and>
     (groups_exists env g = Inr True \<and> groups_isHidden env g = Inr True \<and>
      privileges_admin_can env ''admin:groups'' u = Inr False \<and>
      user_isGlobalModerator env u = Inr False \<and> any_failed ties \<longrightarrow>
        rejects_among (fst (validateGroupAccess env req g)) ties) \<and>
     (validateSlugAndRedirect cfg isAPI (params_slug req) = Continue slug \<longrightarrow>
        (groups_getGroupNameByGroupSlug env slug = Inl e \<longrightarrow>
           fst (groupsController_details env cfg isAPI req) = Inl e) \<and>
        (groups_getGroupNameByGroupSlug env slug = Inr (Some g) \<and> g \<noteq> [] \<longrightarrow>
           (any_failed access \<longrightarrow>
              rejects_among (fst (groupsController_details env cfg isAPI req)) access) \<and>
           (groups_exists env g = Inr True \<and> groups_isHidden env g = Inr True \<and>
            privileges_admin_can env ''admin:groups'' u = Inr False \<and>
            user_isGlobalModerator env u = Inr False \<and> any_failed ties \<longrightarrow>
              rejects_among (fst (groupsController_details env cfg isAPI req)) ties) \<and>
           (groups_exists env g = Inr True \<and> groups_isHidden env g = Inr h \<and>
            privileges_admin_can env ''admin:groups'' u = Inr ad \<and>
            user_isGlobalModerator env u = Inr gm \<and>
            (h \<and> \<not> ad \<and> \<not> gm \<longrightarrow>
               groups_isMember env u g = Inr m \<and> groups_isInvited env u g = Inr i \<and>
               (m \<or> i)) \<and>
            any_failed fetches \<longrightarrow>
              rejects_among (fst (groupsController_details env cfg isAPI req)) fetches))) \<and>
     (groups_getGroupNameByGroupSlug env (params_slug req) = Inl e \<longrightarrow>
        fst (groupsController_members env req) = Inl e) \<and>
     (groups_getGroupNameByGroupSlug env (params_slug req) = Inr (Some g) \<and> g \<noteq> [] \<longrightarrow>
        (any_failed lookups \<longrightarrow>
           rejects_among (fst (groupsController_members env req)) lookups) \<and>
        (groups_getGroupData env g = Inr gd \<and> user_isAdminOrGlobalMod env u = Inr b \<and>
         groups_isMember env u g = Inr m' \<and> groups_isHidden env g = Inr h' \<and>
         \<not> (h' \<and> \<not> m' \<and> \<not> b) \<and>
         user_getUsersFromSet env (''group:'' @ g @ '':members'') u
           (members_start p) (members_stop p) = Inl e \<longrightarrow>
           fst (groupsController_members env req) = Inl e))"
proof -
  let ?can = "privileges_global_can env ''group:create'' (uid req)"
  let ?adm = "user_isAdministrator env (uid req)"
  let ?ex = "groups_exists env g"
  let ?hid = "groups_isHidden env g"
  let ?pac = "privileges_admin_can env ''admin:groups'' (uid req)"
  let ?gm = "user_isGlobalModerator env (uid req)"
  let ?mem = "groups_isMember env (uid req) g"
  let ?inv = "groups_isInvited env (uid req) g"
  let ?get = "groups_get env g \<lparr>go_uid = uid req, truncateUserList = True, userListCount = 20\<rparr>"
  let ?posts = "groups_getLatestMemberPosts env g 10 (uid req)"
  have lst: "fst (groupsController_list env cfg req) =
               fst (await (Promise_all (invoke (PrivilegesGlobalCan ''group:create'' (uid req)) ?can)
                             (getGroups env req s p))
                      (\<lambda>(allowGroupCreation, (groupData, pageCount)).
                         resolve (Render
                           \<lparr>lv_canonical = nconf_url cfg @ stripApi (url req),
                            lv_groups = groupData,
                            lv_allowGroupCreation = allowGroupCreation,
                            lv_sort = validator_escape env (toString s),
                            lv_pagination = (p, pageCount),
                            lv_title = ''[[pages:groups]]'',
                            lv_breadcrumbs =
                              [\<lparr>crumb_text = ''[[pages:groups]]'', crumb_url = None\<rparr>]\<rparr>)))"
    by (simp add: groupsController_list_def Let_def s p)
  have list1: "\<not> truthy (query_query req) \<and> any_failed listing \<longrightarrow>
        rejects_among (fst (groupsController_list env cfg req)) listing"
    unfolding listing can u lst
    by (cases ?can;
        cases "groups_getGroupsBySort env s (getGroups_start req p) (getGroups_stop req p)";
        cases "groups_getGroupCountBySort env s")
       (simp_all add: failure_defs getGroups_def promise_defs)
  have list2: "truthy (query_query req) \<and> query_filterHidden req \<noteq> QString ''true'' \<and>
      any_failed [can, failure_of (user_isAdministrator env u)] \<longrightarrow>
        rejects_among (fst (groupsController_list env cfg req))
          [can, failure_of (user_isAdministrator env u)]"
    unfolding can u lst
    by (cases ?can; cases ?adm)
       (simp_all add: failure_defs getGroups_def promise_defs)
  have list3: "truthy (query_query req) \<and>
      (query_filterHidden req = QString ''true'' \<or> user_isAdministrator env u = Inr adm) \<and>
      any_failed [can, failure_of (groups_search env (query_query req) options)] \<longrightarrow>
        rejects_among (fst (groupsController_list env cfg req))
          [can, failure_of (groups_search env (query_query req) options)]"
  proof (intro impI, elim conjE)
    assume q: "truthy (query_query req)"
      and hid: "query_filterHidden req = QString ''true'' \<or> user_isAdministrator env u = Inr adm"
      and failed: "any_failed [can, failure_of (groups_search env (query_query req) options)]"
    have flag: "fst (if query_filterHidden req = QString ''true'' then resolve True
                     else await (invoke (UserIsAdministrator (uid req)) ?adm)
                            (\<lambda>isAdministrator. resolve (\<not> isAdministrator))) =
                Inr (query_filterHidden req = QString ''true'' \<or> \<not> adm)"
      using hid by (auto simp: promise_defs u)
    have search: "fst (getGroups env req s p) =
                    fst (await (invoke (GroupsSearch (query_query req) options)
                                  (groups_search env (query_query req) options))
                           (\<lambda>groupData.
                              resolve (slice (elements groupData) (getGroups_start req p)
                                         (float64 (getGroups_stop req p + 1)),
                                       Math_ceil_div (int (length (elements groupData)))
                                         (resultsPerPage req))))"
      by (simp add: getGroups_def Let_def q await_Inr[OF flag] options)
    from failed show "rejects_among (fst (groupsController_list env cfg req))
          [can, failure_of (groups_search env (query_query req) options)]"
      unfolding can u lst
      by (cases ?can; cases "groups_search env (query_query req) options")
         (simp_all add: failure_defs search promise_defs)
  qed
  have acc1: "any_failed access \<longrightarrow> rejects_among (fst (validateGroupAccess env req g)) access"
    unfolding access u
    by (cases ?ex; cases ?hid; cases ?pac; cases ?gm)
       (simp_all add: failure_defs validateGroupAccess_def promise_defs)
  have acc2: "groups_exists env g = Inr True \<and> groups_isHidden env g = Inr True \<and>
      privileges_admin_can env ''admin:groups'' u = Inr False \<and>
      user_isGlobalModerator env u = Inr False \<and> any_failed ties \<longrightarrow>
        rejects_among (fst (validateGroupAccess env req g)) ties"
    unfolding ties u
    by (cases ?mem; cases ?inv)
       (simp_all add: failure_defs validateGroupAccess_def promise_defs)
  have acc3: "fst (validateGroupAccess env req g) =
                Inr \<lparr>hasAccess = True, ga_isAdmin = Some ad, ga_isGlobalMod = Some gm\<rparr>"
    if "groups_exists env g = Inr True" "groups_isHidden env g = Inr h"
      "privileges_admin_can env ''admin:groups'' u = Inr ad"
      "user_isGlobalModerator env u = Inr gm"
      "h \<and> \<not> ad \<and> \<not> gm \<longrightarrow>
         groups_isMember env u g = Inr m \<and> groups_isInvited env u g = Inr i \<and> (m \<or> i)"
    using that unfolding u
    by (auto simp: validateGroupAccess_def promise_defs)
  have det: "validateSlugAndRedirect cfg isAPI (params_slug req) = Continue slug \<longrightarrow>
        (groups_getGroupNameByGroupSlug env slug = Inl e \<longrightarrow>
           fst (groupsController_details env cfg isAPI req) = Inl e) \<and>
        (groups_getGroupNameByGroupSlug env slug = Inr (Some g) \<and> g \<noteq> [] \<longrightarrow>
           (any_failed access \<longrightarrow>
              rejects_among (fst (groupsController_details env cfg isAPI req)) access) \<and>
           (groups_exists env g = Inr True \<and> groups_isHidden env g = Inr True \<and>
            privileges_admin_can env ''admin:groups'' u = Inr False \<and>
            user_isGlobalModerator env u = Inr False \<and> any_failed ties \<longrightarrow>
              rejects_among (fst (groupsController_details env cfg isAPI req)) ties) \<and>
           (groups_exists env g = Inr True \<and> groups_isHidden env g = Inr h \<and>
            privileges_admin_can env ''admin:groups'' u = Inr ad \<and>
            user_isGlobalModerator env u = Inr gm \<and>
            (h \<and> \<not> ad \<and> \<not> gm \<longrightarrow>
               groups_isMember env u g = Inr m \<and> groups_isInvited env u g = Inr i \<and>
               (m \<or> i)) \<and>
            any_failed fetches \<longrightarrow>
              rejects_among (fst (groupsController_details env cfg isAPI req)) fetches))"
  proof (intro impI conjI; (elim conjE)?)
    assume go: "validateSlugAndRedirect cfg isAPI (params_slug req) = Continue slug"
    have body: "groupsController_details env cfg isAPI req =
      await (invoke (GroupsGetGroupNameByGroupSlug slug) (groups_getGroupNameByGroupSlug env slug))
        (\<lambda>groupName.
           case groupName of
             None \<Rightarrow> resolve Next
           | Some groupName \<Rightarrow>
               if groupName = [] then resolve Next
               else
                 await (validateGroupAccess env req groupName)
                   (\<lambda>access.
                      if \<not> hasAccess access then resolve Next
                      else
                        await (fetchGroupDetailsData env req groupName)
                          (\<lambda>(groupData, posts).
                             case groupData of
                               None \<Rightarrow> resolve Next
                             | Some groupData \<Rightarrow>
                                 resolve (Render
                                   (renderGroupDetails cfg groupData posts
                                      (ga_isAdmin access) (ga_isGlobalMod access)
                                      (toLowerCase slug))))))"
      by (simp add: groupsController_details_def go validateGroupAccess_slug
            fetchGroupDetailsData_slug cong: option.case_cong if_cong)
    {
      assume "groups_getGroupNameByGroupSlug env slug = Inl e"
      then show "fst (groupsController_details env cfg isAPI req) = Inl e"
        unfolding body by (simp add: await_def invoke_def)
    }
    assume name: "groups_getGroupNameByGroupSlug env slug = Inr (Some g)" and g: "g \<noteq> []"
    have rest: "fst (groupsController_details env cfg isAPI req) =
      fst (await (validateGroupAccess env req g)
             (\<lambda>access.
                if \<not> hasAccess access then resolve Next
                else
                  await (fetchGroupDetailsData env req g)
                    (\<lambda>(groupData, posts).
                       case groupData of
                         None \<Rightarrow> resolve Next
                       | Some groupData \<Rightarrow>
                           resolve (Render
                             (renderGroupDetails cfg groupData posts
                                (ga_isAdmin access) (ga_isGlobalMod access)
                                (toLowerCase slug))))))"
      unfolding body using name g by (simp add: await_def invoke_def)
    have through: "rejects_among (fst (groupsController_details env cfg isAPI req)) answers"
      if "rejects_among (fst (validateGroupAccess env req g)) answers" for answers
      using that unfolding rest
      by (cases "fst (validateGroupAccess env req g)") (simp_all add: rejects_among_def await_def)
    {
      assume "any_failed access"
      with acc1 through show
        "rejects_among (fst (groupsController_details env cfg isAPI req)) access"
        by blast
    }
    {
      assume "groups_exists env g = Inr True" "groups_isHidden env g = Inr True"
        "privileges_admin_can env ''admin:groups'' u = Inr False"
        "user_isGlobalModerator env u = Inr False" "any_failed ties"
      with acc2 through show
        "rejects_among (fst (groupsController_details env cfg isAPI req)) ties"
        by blast
    }
    {
      assume a: "groups_exists env g = Inr True" "groups_isHidden env g = Inr h"
        "privileges_admin_can env ''admin:groups'' u = Inr ad"
        "user_isGlobalModerator env u = Inr gm"
        "h \<and> \<not> ad \<and> \<not> gm \<longrightarrow>
           groups_isMember env u g = Inr m \<and> groups_isInvited env u g = Inr i \<and> (m \<or> i)"
        and failed: "any_failed fetches"
      from failed show
        "rejects_among (fst (groupsController_details env cfg isAPI req)) fetches"
        unfolding rest await_Inr[OF acc3[OF a]] fetches u
        by (cases ?get; cases ?posts)
           (simp_all add: failure_defs fetchGroupDetailsData_def promise_defs)
    }
  qed
  have mem1: "groups_getGroupNameByGroupSlug env (params_slug req) = Inl e \<longrightarrow>
        fst (groupsController_members env req) = Inl e"
    by (simp add: groupsController_members_def Let_def promise_defs)
  have mem2: "groups_getGroupNameByGroupSlug env (params_slug req) = Inr (Some g) \<and> g \<noteq> [] \<longrightarrow>
        (any_failed lookups \<longrightarrow>
           rejects_among (fst (groupsController_members env req)) lookups) \<and>
        (groups_getGroupData env g = Inr gd \<and> user_isAdminOrGlobalMod env u = Inr b \<and>
         groups_isMember env u g = Inr m' \<and> groups_isHidden env g = Inr h' \<and>
         \<not> (h' \<and> \<not> m' \<and> \<not> b) \<and>
         user_getUsersFromSet env (''group:'' @ g @ '':members'') u
           (members_start p) (members_stop p) = Inl e \<longrightarrow>
           fst (groupsController_members env req) = Inl e)"
    unfolding lookups u p
    by (cases "groups_getGroupData env g"; cases "user_isAdminOrGlobalMod env (uid req)";
        cases ?mem; cases ?hid)
       (auto simp: failure_defs groupsController_members_def Let_def promise_defs)
  from list1 list2 list3 acc1 acc2 det mem1 mem2 show ?thesis
    by (intro conjI)
qed

theorem collaborator_failures_propagate_witness:
  "fst (groupsController_list failing_env demo_config demo_request) =
     Inl (CollaboratorFailure ''store down'') \<and>
   fst (validateGroupAccess failing_env demo_request ''Secret'') =
     Inl (CollaboratorFailure ''store down'') \<and>
   fst (groupsController_details failing_env demo_config False demo_request) =
     Inl (CollaboratorFailure ''store down'') \<and>
   fst (groupsController_members failing_env demo_request) =
     Inl (CollaboratorFailure ''store down'')"
proof -
  note all = collaborator_failures_propagate[where env = failing_env and req = demo_request
      and cfg = demo_config and isAPI = False and g = "''Secret''" and slug = "''secret''",
      OF refl refl refl refl refl refl refl refl refl refl]
  have go: "validateSlugAndRedirect demo_config False (params_slug demo_request) =
              Continue ''secret''"
    by (simp add: validateSlugAndRedirect_def demo_defs lower_slugs)
  have name: "groups_getGroupNameByGroupSlug failing_env ''secret'' = Inr (Some ''Secret'')"
    "groups_getGroupNameByGroupSlug failing_env (params_slug demo_request) = Inr (Some ''Secret'')"
    by (simp_all add: demo_defs)
  from all have "rejects_among (fst (groupsController_list failing_env demo_config demo_request))
                   [None, None, Some (CollaboratorFailure ''store down'')]"
    by (simp add: any_failed_def demo_defs)
  then have 1: "fst (groupsController_list failing_env demo_config demo_request) =
                  Inl (CollaboratorFailure ''store down'')"
    by (rule rejects_among_one) simp
  from all have "rejects_among (fst (validateGroupAccess failing_env demo_request ''Secret''))
                   [None, Some (CollaboratorFailure ''store down''), None, None]"
    by (simp add: any_failed_def demo_defs)
  then have 2: "fst (validateGroupAccess failing_env demo_request ''Secret'') =
                  Inl (CollaboratorFailure ''store down'')"
    by (rule rejects_among_one) auto
  from all go name(1)
  have "rejects_among (fst (groupsController_details failing_env demo_config False demo_request))
          [None, Some (CollaboratorFailure ''store down''), None, None]"
    by (simp add: any_failed_def demo_defs)
  then have 3: "fst (groupsController_details failing_env demo_config False demo_request) =
                  Inl (CollaboratorFailure ''store down'')"
    by (rule rejects_among_one) auto
  from all name(2)
  have "rejects_among (fst (groupsController_members failing_env demo_request))
          [None, None, None, Some (CollaboratorFailure ''store down'')]"
    by (simp add: any_failed_def demo_defs)
  then have 4: "fst (groupsController_members failing_env demo_request) =
                  Inl (CollaboratorFailure ''store down'')"
    by (rule rejects_among_one) auto
  from 1 2 3 4 show ?thesis
    by blast
qed

text \<open>
  \<^bold>\<open>C10.\<close> For every page-number input the start offset of the list operation, in both modes,
  and of the members operation is not negative, and so is every start offset that reaches
  the group store or the user store.
\<close>

theorem start_offset_never_negative:
  "0 \<le> getGroups_start req (parsePage q) \<and> 0 \<le> members_start (parsePage q) \<and>
   (GroupsGetGroupsBySort s a b \<in> set (snd (groupsController_list env cfg req)) \<longrightarrow> 0 \<le> a) \<and>
   (UserGetUsersFromSet k u a' b' \<in> set (snd (groupsController_members env req)) \<longrightarrow> 0 \<le> a')"
proof -
  have 1: "0 \<le> getGroups_start req page" for page
    unfolding getGroups_start_def
    by (rule float64_nonneg) (simp add: resultsPerPage_def)
  have 2: "0 \<le> members_start page" for page
    by (simp add: members_start_def)
  have 3: "GroupsGetGroupsBySort s a b \<in> set (snd (getGroups env req s' page)) \<Longrightarrow> 0 \<le> a" for s' page
    using 1[of page]
    by (auto simp: getGroups_def Let_def promise_defs split: if_splits sum.splits)
  have 4: "GroupsGetGroupsBySort s a b \<in> set (snd (groupsController_list env cfg req)) \<Longrightarrow> 0 \<le> a"
    using 3 by (auto simp: groupsController_list_def Let_def promise_defs split: if_splits sum.splits prod.splits)
  have 5: "UserGetUsersFromSet k u a' b' \<in> set (snd (groupsController_members env req)) \<Longrightarrow> 0 \<le> a'"
    using 2[of "parsePage (query_page req)"]
    by (auto simp: groupsController_members_def Let_def promise_defs split: if_splits sum.splits prod.splits option.splits)
  from 1 2 4 5 show ?thesis by blast
qed

theorem start_offset_never_negative_witness:
  "GroupsGetGroupsBySort (QString ''alpha'') 15 29
     \<in> set (snd (groupsController_list demo_env demo_config demo_request)) \<and>
   UserGetUsersFromSet ''group:Staff:members'' 4 50 99
     \<in> set (snd (groupsController_members demo_env staff_request)) \<and>
   (0::int) \<le> 15 \<and> (0::int) \<le> 50"
proof -
  have 1: "GroupsGetGroupsBySort (QString ''alpha'') 15 29
     \<in> set (snd (groupsController_list demo_env demo_config demo_request))"
    by (simp add: groupsController_list_def getGroups_def getGroups_start_def
          getGroups_stop_def resultsPerPage_def Let_def promise_defs demo_defs page_two
          float64_exact)
  have 2: "UserGetUsersFromSet ''group:Staff:members'' 4 50 99
     \<in> set (snd (groupsController_members demo_env staff_request))"
    by (simp add: groupsController_members_def members_window_two Let_def promise_defs
          demo_defs page_two)
  from start_offset_never_negative[where req = demo_request and s = "QString ''alpha''"
         and a = 15 and b = 29 and env = demo_env and cfg = demo_config] 1
  have 3: "(0::int) \<le> 15"
    by blast
  from start_offset_never_negative[where req = staff_request and env = demo_env
         and k = "''group:Staff:members''" and u = 4 and a' = 50 and b' = 99] 2
  have 4: "(0::int) \<le> 50"
    by blast
  from 1 2 3 4 show ?thesis
    by blast
qed

end
